theory Spec2Isabelle
  imports Complex_Main "HOL-Library.Word"
begin

section \<open>The pool-table coin counter (ESP8266 sketch)\<close>

text \<open>
  The sketch keeps its whole state in global variables and drives a three-state machine from
  a \<^verbatim>\<open>Ticker\<close> callback that fires every 100 ms. Each state has one handler
  (\<^verbatim>\<open>process_DRAWER_CLOSED_state\<close>, \<^verbatim>\<open>process_DRAWER_OPEN_state\<close>,
  \<^verbatim>\<open>process_OPEN_FOR_TOO_LONG_state\<close>); on a transition a handler detaches the ticker
  and calls the handler of the next state directly, which attaches itself.
\<close>

subsection \<open>The \<^verbatim>\<open>float\<close> timer\<close>

text \<open>
  \<^verbatim>\<open>float openTime\<close> is an IEEE 754 binary32 value. A finite binary32 or binary64 value
  is a rational number, so the timer is modelled by the real number it denotes, and the
  conversions to binary32 and binary64 round to nearest, ties to even, as the software
  floating point of the ESP8266 (which has no floating-point unit) does. Infinities and NaN
  are not modelled: the timer starts at 0 and only ever has a positive constant added to it,
  and the thresholds are 32-bit integers.
\<close>

fun bit_count :: "nat \<Rightarrow> nat" where
  "bit_count n = (if n = 0 then 0 else Suc (bit_count (n div 2)))"

declare bit_count.simps [simp del]

definition pow2 :: "int \<Rightarrow> real" where
  "pow2 k = (if 0 \<le> k then 2 ^ nat k else 1 / 2 ^ nat (- k))"

text \<open>
  For \<open>x > 0\<close>, the exponent \<open>e\<close> with \<open>2 ^ e \<le> x < 2 ^ (e + 1)\<close>: one less than
  the number of bits of the integer part when \<open>x \<ge> 1\<close>, and otherwise minus the least
  \<open>k\<close> with \<open>1 / x \<le> 2 ^ k\<close>.
\<close>

definition binary_exponent :: "real \<Rightarrow> int" where
  "binary_exponent x =
     (if 1 \<le> x then int (bit_count (nat \<lfloor>x\<rfloor>)) - 1
      else - int (bit_count (nat \<lceil>1 / x\<rceil> - 1)))"

definition round_half_even :: "real \<Rightarrow> int" where
  "round_half_even q =
     (let n = \<lfloor>q\<rfloor>; r = q - of_int n
      in if r < 1 / 2 then n
         else if 1 / 2 < r then n + 1
         else if even n then n else n + 1)"

text \<open>
  Rounding to a binary format with \<open>p\<close> significand bits and least normal exponent
  \<open>emin\<close> (below it the spacing stays that of the subnormal numbers).
\<close>

definition round_to_format :: "nat \<Rightarrow> int \<Rightarrow> real \<Rightarrow> real" where
  "round_to_format p emin x =
     (if x = 0 then 0
      else let e = max (binary_exponent \<bar>x\<bar>) emin;
               u = pow2 (e - (int p - 1))
           in sgn x * of_int (round_half_even (\<bar>x\<bar> / u)) * u)"

definition to_float :: "real \<Rightarrow> real" where
  "to_float = round_to_format 24 (- 126)"

definition to_double :: "real \<Rightarrow> real" where
  "to_double = round_to_format 53 (- 1022)"

text \<open>
  \<^verbatim>\<open>openTime += c\<close> with a \<^verbatim>\<open>double\<close> literal \<open>c\<close>: the \<^verbatim>\<open>float\<close> is widened to
  \<^verbatim>\<open>double\<close> (exactly), the sum is rounded to \<^verbatim>\<open>double\<close>, and the assignment rounds it to
  \<^verbatim>\<open>float\<close>.
\<close>

definition add_assign :: "real \<Rightarrow> real \<Rightarrow> real" where
  "add_assign x c = to_float (to_double (x + c))"

text \<open>The literal \<^verbatim>\<open>0.1\<close>: the \<^verbatim>\<open>double\<close> nearest to one tenth.\<close>

definition literal_0_1 :: real where
  "literal_0_1 = to_double (1 / 10)"

text \<open>\<^verbatim>\<open>openTime >= TIMEOUT\<close>: the \<^verbatim>\<open>int\<close> is converted to \<^verbatim>\<open>float\<close> and compared.\<close>

definition ge_int :: "real \<Rightarrow> int \<Rightarrow> bool" where
  "ge_int x n = (to_float (of_int n) \<le> x)"

subsection \<open>Global variables and collaborators\<close>

datatype State = DRAWER_CLOSED | DRAWER_OPEN | OPEN_FOR_TOO_LONG

text \<open>
  \<^verbatim>\<open>digitalRead(2)\<close>: \<open>HIGH\<close> when the lever blocks the light (the spec's LIGHT_BLOCKED),
  \<open>LOW\<close> when the light reaches the sensor (LIGHT_ON).
\<close>

datatype level = LOW | HIGH

text \<open>The three functions that are ever attached to the ticker.\<close>

datatype callback = CB_DRAWER_CLOSED | CB_DRAWER_OPEN | CB_OPEN_FOR_TOO_LONG

text \<open>
  What the two MQTT publishers send: \<^verbatim>\<open>coinCounterPublisher.publish(int)\<close> and
  \<^verbatim>\<open>reporterPublisher.publish(const char *)\<close>.
\<close>

datatype publication = CoinCounter "32 word" | Reporter string

text \<open>
  The globals of the sketch. \<open>coinCount\<close> is a 32-bit \<^verbatim>\<open>int\<close>, kept as a word and read
  with \<open>sint\<close>: \<^verbatim>\<open>coinCount++\<close> is the addition of the integers below the largest
  \<^verbatim>\<open>int\<close>, where C++ leaves it undefined and the word wraps around. \<open>TIMEOUT\<close> is an
  \<^verbatim>\<open>int\<close> that is only ever assigned constants and compared. \<open>ticker\<close> is the \<^verbatim>\<open>Ticker\<close> object: the period in milliseconds and the
  attached callback, or \<open>None\<close> when detached. \<open>published\<close> is the log of everything
  handed to the MQTT publishers, oldest first; the \<^verbatim>\<open>Serial\<close> debug output is left out.
\<close>

record globals =
  TIMEOUT :: int
  openTime :: real
  state :: State
  coinCount :: "32 word"
  ticker :: "(nat \<times> callback) option"
  published :: "publication list"

definition activateTimerIfNotActive :: "nat \<Rightarrow> callback \<Rightarrow> globals \<Rightarrow> globals" where
  "activateTimerIfNotActive timeout cb g =
     (if ticker g = None then g\<lparr>ticker := Some (timeout, cb)\<rparr> else g)"

definition deactivateTimer :: "globals \<Rightarrow> globals" where
  "deactivateTimer g = g\<lparr>ticker := None\<rparr>"

definition publish :: "publication \<Rightarrow> globals \<Rightarrow> globals" where
  "publish p g = g\<lparr>published := published g @ [p]\<rparr>"

subsection \<open>The three state handlers\<close>

text \<open>
  The handlers call each other, and each call reads the pin again. Within one timer tick the
  reading is taken to be the same at every read, so it is a parameter of the handlers. (A pin
  that changed between the reads of one tick could send the chain of calls round again.)
\<close>

text \<open>
  A call of one of the three handlers, in the order closed, open, open for too long, and how
  many further handler calls can follow it in the same tick: with the light blocked a chain
  runs closed, open, open for too long; with the light let through it runs open, open for too
  long, closed.
\<close>

type_synonym handler_call = "level \<times> globals + level \<times> globals + level \<times> globals"

fun chain_rank :: "handler_call \<Rightarrow> nat" where
  "chain_rank (Inl (pin, g)) = (if pin = HIGH then 2 else 0)"
| "chain_rank (Inr (Inl (pin, g))) = (if pin = HIGH then 1 else 2)"
| "chain_rank (Inr (Inr (pin, g))) = (if pin = HIGH then 0 else 1)"

function process_DRAWER_CLOSED_state :: "level \<Rightarrow> globals \<Rightarrow> globals"
  and process_DRAWER_OPEN_state :: "level \<Rightarrow> globals \<Rightarrow> globals"
  and process_OPEN_FOR_TOO_LONG_state :: "level \<Rightarrow> globals \<Rightarrow> globals"
where
  "process_DRAWER_CLOSED_state pin g =
     (let g1 = activateTimerIfNotActive 100 CB_DRAWER_CLOSED (g\<lparr>openTime := 0\<rparr>)
      in if pin = HIGH then
           process_DRAWER_OPEN_state pin ((deactivateTimer g1)\<lparr>state := DRAWER_OPEN\<rparr>)
         else g1)"
| "process_DRAWER_OPEN_state pin g =
     (let g1 = activateTimerIfNotActive 100 CB_DRAWER_OPEN g;
          g2 = g1\<lparr>openTime := add_assign (openTime g1) literal_0_1\<rparr>
      in if ge_int (openTime g2) (TIMEOUT g2) then
           process_OPEN_FOR_TOO_LONG_state pin
             (publish (Reporter ''Pool table is open for too long'')
               ((deactivateTimer g2)\<lparr>state := OPEN_FOR_TOO_LONG, TIMEOUT := 3, openTime := 0\<rparr>))
         else if pin = LOW then
           (let g3 = deactivateTimer g2;
                g4 = g3\<lparr>coinCount := coinCount g3 + 1\<rparr>;
                g5 = publish (CoinCounter (coinCount g4)) g4
            in process_DRAWER_CLOSED_state pin (g5\<lparr>state := DRAWER_CLOSED\<rparr>))
         else g2)"
| "process_OPEN_FOR_TOO_LONG_state pin g =
     (let g1 = activateTimerIfNotActive 100 CB_OPEN_FOR_TOO_LONG g;
          g2 = g1\<lparr>openTime := add_assign (openTime g1) literal_0_1\<rparr>
      in if pin = LOW then
           (let g3 = deactivateTimer g2;
                g4 = g3\<lparr>coinCount := coinCount g3 + 1\<rparr>;
                g5 = publish (CoinCounter (coinCount g4)) g4;
                g6 = publish (Reporter ''Pool table drawer was finally closed'') g5
            in process_DRAWER_CLOSED_state pin
                 (g6\<lparr>state := DRAWER_CLOSED, TIMEOUT := 18, openTime := 0\<rparr>))
         else if ge_int (openTime g2) (TIMEOUT g2) then
           (publish (Reporter ''Pool table keeps open for too long'') g2)\<lparr>openTime := 0\<rparr>
         else g2)"
  by pat_completeness auto
termination
  by (relation "measure chain_rank") auto

declare process_DRAWER_CLOSED_state.simps [simp del]
declare process_DRAWER_OPEN_state.simps [simp del]
declare process_OPEN_FOR_TOO_LONG_state.simps [simp del]

subsection \<open>Start-up and the timer tick\<close>

text \<open>The initialisers of the globals, before \<^verbatim>\<open>setup()\<close> runs.\<close>

definition initial_globals :: globals where
  "initial_globals =
     \<lparr>TIMEOUT = 18, openTime = 0, state = DRAWER_CLOSED, coinCount = 0,
      ticker = None, published = []\<rparr>"

text \<open>
  \<^verbatim>\<open>setup()\<close> ends by processing the first state; the rest of it is board bring-up.
  (The name \<open>setup\<close> is taken in Isabelle.)
\<close>

definition sketch_setup :: "level \<Rightarrow> globals" where
  "sketch_setup pin = process_DRAWER_CLOSED_state pin initial_globals"

fun invoke :: "callback \<Rightarrow> level \<Rightarrow> globals \<Rightarrow> globals" where
  "invoke CB_DRAWER_CLOSED pin g = process_DRAWER_CLOSED_state pin g"
| "invoke CB_DRAWER_OPEN pin g = process_DRAWER_OPEN_state pin g"
| "invoke CB_OPEN_FOR_TOO_LONG pin g = process_OPEN_FOR_TOO_LONG_state pin g"

fun call_of :: "callback \<Rightarrow> level \<Rightarrow> globals \<Rightarrow> handler_call" where
  "call_of CB_DRAWER_CLOSED pin g = Inl (pin, g)"
| "call_of CB_DRAWER_OPEN pin g = Inr (Inl (pin, g))"
| "call_of CB_OPEN_FOR_TOO_LONG pin g = Inr (Inr (pin, g))"

text \<open>
  One expiry of the ticker: the attached callback runs once, with the pin at \<open>pin\<close>. A
  detached ticker calls nothing.
\<close>

definition tick :: "level \<Rightarrow> globals \<Rightarrow> globals" where
  "tick pin g = (case ticker g of None \<Rightarrow> g | Some (ms, cb) \<Rightarrow> invoke cb pin g)"

text \<open>A run of ticks, one pin reading per tick, first reading first.\<close>

fun ticks :: "level list \<Rightarrow> globals \<Rightarrow> globals" where
  "ticks [] g = g"
| "ticks (pin # pins) g = ticks pins (tick pin g)"

text \<open>
  The sketch assigns \<open>state\<close> on every transition but never reads it: which handler the
  next tick runs is decided by the ticker alone. The machine is \<^emph>\<open>in\<close> a state when the
  variable names it and that state's handler is the attached callback.
\<close>

fun handler_of :: "State \<Rightarrow> callback" where
  "handler_of DRAWER_CLOSED = CB_DRAWER_CLOSED"
| "handler_of DRAWER_OPEN = CB_DRAWER_OPEN"
| "handler_of OPEN_FOR_TOO_LONG = CB_OPEN_FOR_TOO_LONG"

definition in_state :: "State \<Rightarrow> globals \<Rightarrow> bool" where
  "in_state st g = (state g = st \<and> ticker g = Some (100, handler_of st))"

subsection \<open>The timer over several ticks\<close>

text \<open>The value of a timer that starts at \<open>x\<close> after \<open>n\<close> executions of \<^verbatim>\<open>openTime += c\<close>.\<close>

fun accumulate :: "real \<Rightarrow> nat \<Rightarrow> real \<Rightarrow> real" where
  "accumulate c 0 x = x"
| "accumulate c (Suc n) x = accumulate c n (add_assign x c)"

text \<open>None of the next \<open>n\<close> values of the timer passes the test \<^verbatim>\<open>openTime >= T\<close>.\<close>

fun stays_below :: "real \<Rightarrow> nat \<Rightarrow> real \<Rightarrow> int \<Rightarrow> bool" where
  "stays_below c 0 x T = True"
| "stays_below c (Suc n) x T =
     (\<not> ge_int (add_assign x c) T \<and> stays_below c n (add_assign x c) T)"

subsection \<open>Two runs of pin readings\<close>



subsection \<open>Two states used as examples\<close>

text \<open>
  The open drawer one tick before the first timeout (started with the light let through, then
  179 ticks with the light blocked), and the jammed drawer right after a notice (timer back
  at 0), as it is 210 ticks into the same run but for the log.
\<close>

definition before_timeout :: globals where
  "before_timeout = ticks (replicate 179 HIGH) (sketch_setup LOW)"

definition stuck_just_notified :: globals where
  "stuck_just_notified =
     \<lparr>TIMEOUT = 3, openTime = 0, state = OPEN_FOR_TOO_LONG, coinCount = 0,
      ticker = Some (100, CB_OPEN_FOR_TOO_LONG), published = []\<rparr>"

section \<open>The rounding model\<close>

text \<open>
  Three checks of the rounding functions against their intent: \<open>binary_exponent\<close> finds the
  binade of a positive number, \<open>round_half_even\<close> returns a nearest integer, and
  \<open>round_to_format\<close> returns a multiple of the unit in the last place that is within half a
  unit of its argument.
\<close>

lemma bit_count_bounds:
  "0 < n \<Longrightarrow> 2 ^ (bit_count n - 1) \<le> n \<and> n < 2 ^ bit_count n"
proof (induction n rule: bit_count.induct)
  case (1 n)
  show ?case
  proof (cases "n div 2 = 0")
    case True
    with "1.prems" have "n = 1" by (simp add: div_eq_0_iff) 
    then show ?thesis by (simp add: bit_count.simps)
  next
    case False
    then have h: "0 < n div 2" by simp
    with "1.prems" "1.IH" have ih: "2 ^ (bit_count (n div 2) - 1) \<le> n div 2"
      "n div 2 < 2 ^ bit_count (n div 2)" by simp_all
    have pos: "0 < bit_count (n div 2)" using h by (subst bit_count.simps) simp
    have bc: "bit_count n = Suc (bit_count (n div 2))"
      using "1.prems" by (subst bit_count.simps) simp
    have "2 ^ (bit_count n - 1) = 2 * 2 ^ (bit_count (n div 2) - 1)"
      using pos bc by (cases "bit_count (n div 2)") simp_all
    also have "\<dots> \<le> 2 * (n div 2)" using ih(1) by simp
    also have "\<dots> \<le> n" by simp
    finally have lo: "2 ^ (bit_count n - 1) \<le> n" .
    have "n < 2 * (n div 2) + 2" by presburger
    also have "\<dots> \<le> 2 * 2 ^ bit_count (n div 2)" using ih(2) by simp
    finally have "n < 2 ^ bit_count n" using bc by simp
    with lo show ?thesis by simp
  qed
qed

lemma round_half_even_nearest: "\<bar>q - of_int (round_half_even q)\<bar> \<le> 1 / 2"
  unfolding round_half_even_def Let_def
  by (auto simp: abs_le_iff)

lemma binary_exponent_bounds:
  assumes "0 < x"
  shows "pow2 (binary_exponent x) \<le> x \<and> x < pow2 (binary_exponent x + 1)"
proof (cases "1 \<le> x")
  case True
  let ?n = "nat \<lfloor>x\<rfloor>"
  have n: "0 < ?n" using True by simp
  note b = bit_count_bounds [OF n]
  have pos: "0 < bit_count ?n" using n by (subst bit_count.simps) simp
  have e: "binary_exponent x = int (bit_count ?n) - 1"
    using True by (simp add: binary_exponent_def)
  have "real (2 ^ (bit_count ?n - 1)) \<le> real ?n" using b by (simp only: of_nat_le_iff)
  also have "real ?n \<le> x" using True by simp
  finally have lo: "2 ^ (bit_count ?n - 1) \<le> x" by simp
  have "x < real ?n + 1" using True by (simp; linarith)
  also have "\<dots> \<le> real (2 ^ bit_count ?n)"
  proof -
    have "Suc ?n \<le> 2 ^ bit_count ?n" by (rule Suc_leI) (rule conjunct2 [OF b])
    then have "real (Suc ?n) \<le> real (2 ^ bit_count ?n)" by (simp only: of_nat_le_iff)
    then show ?thesis by (simp only: of_nat_Suc)
  qed
  finally have hi: "x < 2 ^ bit_count ?n" by simp
  have p1: "pow2 (int (bit_count ?n) - 1) = 2 ^ (bit_count ?n - 1)"
    using pos by (simp add: pow2_def nat_diff_distrib')
  have p2: "pow2 (int (bit_count ?n) - 1 + 1) = 2 ^ bit_count ?n"
    by (simp add: pow2_def)
  show ?thesis using lo hi by (simp only: e p1 p2 simp_thms)
next
  case False
  let ?c = "nat \<lceil>1 / x\<rceil>"
  let ?k = "bit_count (?c - 1)"
  have x1: "x < 1" using False by simp
  then have inv: "1 < 1 / x" using assms by simp
  then have ci: "1 < \<lceil>1 / x\<rceil>" by (simp add: less_ceiling_iff)
  then have c2: "2 \<le> ?c" by linarith
  have rc: "real ?c = of_int \<lceil>1 / x\<rceil>" using ci by simp
  have rc1: "real (?c - 1) = of_int \<lceil>1 / x\<rceil> - 1"
  proof -
    have "real (?c - 1) = real ?c - 1" using c2 by (subst of_nat_diff) simp_all
    then show ?thesis by (simp only: rc)
  qed
  have m: "0 < ?c - 1" using c2 by linarith
  note b = bit_count_bounds [OF m]
  have e: "binary_exponent x = - int ?k"
    using False by (simp add: binary_exponent_def)
  have "1 / x \<le> real ?c" unfolding rc by (rule le_of_int_ceiling)
  also have "real ?c \<le> real (2 ^ ?k)"
  proof -
    have "Suc (?c - 1) \<le> 2 ^ ?k" by (rule Suc_leI) (rule conjunct2 [OF b])
    moreover have "Suc (?c - 1) = ?c" using m by (simp only: Suc_pred' One_nat_def)
    ultimately have "?c \<le> 2 ^ ?k" by (simp only:)
    then show ?thesis by (simp only: of_nat_le_iff)
  qed
  finally have up: "1 / x \<le> 2 ^ ?k" by simp
  have "real (2 ^ (?k - 1)) \<le> real (?c - 1)" using b by (simp only: of_nat_le_iff)
  also have "real (?c - 1) < 1 / x" unfolding rc1 using ceiling_correct [of "1 / x"] by simp
  finally have dn: "2 ^ (?k - 1) < 1 / x" by simp
  have kpos: "0 < ?k" using m by (subst bit_count.simps) simp
  have lo: "1 / 2 ^ ?k \<le> x"
    using up assms by (simp add: field_simps)
  have hi: "x < 1 / 2 ^ (?k - 1)"
    using dn assms by (simp add: field_simps)
  have p1: "pow2 (- int ?k) = 1 / 2 ^ ?k"
    using kpos by (simp add: pow2_def)
  have p2: "pow2 (- int ?k + 1) = 1 / 2 ^ (?k - 1)"
  proof (cases "?k = 1")
    case True
    then show ?thesis by (simp add: pow2_def)
  next
    case False
    with kpos have "1 < ?k" by simp
    then have "nat (int ?k - 1) = ?k - 1" by simp
    then show ?thesis using \<open>1 < ?k\<close> by (simp add: pow2_def)
  qed
  show ?thesis using lo hi by (simp only: e p1 p2 simp_thms)
qed

lemma pow2_pos: "0 < pow2 k"
  by (simp add: pow2_def)

lemma round_to_format_error:
  "\<bar>round_to_format p emin x - x\<bar>
     \<le> pow2 (max (binary_exponent \<bar>x\<bar>) emin - (int p - 1)) / 2"
proof (cases "x = 0")
  case True
  then show ?thesis using pow2_pos [of "max (binary_exponent 0) emin - (int p - 1)"]
    by (simp add: round_to_format_def)
next
  case False
  let ?u = "pow2 (max (binary_exponent \<bar>x\<bar>) emin - (int p - 1))"
  let ?n = "round_half_even (\<bar>x\<bar> / ?u)"
  have u: "0 < ?u" by (rule pow2_pos)
  have r: "round_to_format p emin x = sgn x * of_int ?n * ?u"
    using False by (simp add: round_to_format_def Let_def)
  have "round_to_format p emin x - x = sgn x * (of_int ?n * ?u - \<bar>x\<bar>)"
    unfolding r using mult_sgn_abs [of x] by (simp add: algebra_simps)
  then have "\<bar>round_to_format p emin x - x\<bar> = \<bar>of_int ?n * ?u - \<bar>x\<bar>\<bar>"
    using False by (simp add: abs_mult abs_sgn_eq)
  also have "of_int ?n * ?u - \<bar>x\<bar> = ?u * (of_int ?n - \<bar>x\<bar> / ?u)"
    using u by (simp add: field_simps)
  also have "\<bar>?u * (of_int ?n - \<bar>x\<bar> / ?u)\<bar> = ?u * \<bar>\<bar>x\<bar> / ?u - of_int ?n\<bar>"
    using u by (simp add: abs_mult abs_minus_commute)
  also have "\<dots> \<le> ?u * (1 / 2)"
    using u round_half_even_nearest [of "\<bar>x\<bar> / ?u"] by (intro mult_left_mono) simp_all
  finally show ?thesis by simp
qed

section \<open>The handlers, one equation each\<close>

lemmas timer_defs = activateTimerIfNotActive_def deactivateTimer_def publish_def

lemma closed_flat:
  "process_DRAWER_CLOSED_state pin g =
     (if pin = HIGH then
        process_DRAWER_OPEN_state HIGH (g\<lparr>openTime := 0, state := DRAWER_OPEN, ticker := None\<rparr>)
      else activateTimerIfNotActive 100 CB_DRAWER_CLOSED (g\<lparr>openTime := 0\<rparr>))"
  by (cases g, subst process_DRAWER_CLOSED_state.simps) (simp add: Let_def timer_defs)

lemma stuck_flat:
  "process_OPEN_FOR_TOO_LONG_state pin g =
     (if pin = LOW then
        g\<lparr>TIMEOUT := 18, openTime := 0, state := DRAWER_CLOSED, coinCount := coinCount g + 1,
          ticker := Some (100, CB_DRAWER_CLOSED),
          published := published g @ [CoinCounter (coinCount g + 1),
            Reporter ''Pool table drawer was finally closed'']\<rparr>
      else if ge_int (add_assign (openTime g) literal_0_1) (TIMEOUT g) then
        (activateTimerIfNotActive 100 CB_OPEN_FOR_TOO_LONG g)
          \<lparr>openTime := 0,
           published := published g @ [Reporter ''Pool table keeps open for too long'']\<rparr>
      else (activateTimerIfNotActive 100 CB_OPEN_FOR_TOO_LONG g)
          \<lparr>openTime := add_assign (openTime g) literal_0_1\<rparr>)"
  by (cases g, subst process_OPEN_FOR_TOO_LONG_state.simps)
    (simp add: Let_def closed_flat timer_defs)

lemma open_flat:
  "process_DRAWER_OPEN_state pin g =
     (if ge_int (add_assign (openTime g) literal_0_1) (TIMEOUT g) then
        process_OPEN_FOR_TOO_LONG_state pin
          (g\<lparr>TIMEOUT := 3, openTime := 0, state := OPEN_FOR_TOO_LONG, ticker := None,
             published := published g @ [Reporter ''Pool table is open for too long'']\<rparr>)
      else if pin = LOW then
        g\<lparr>openTime := 0, state := DRAWER_CLOSED, coinCount := coinCount g + 1,
          ticker := Some (100, CB_DRAWER_CLOSED),
          published := published g @ [CoinCounter (coinCount g + 1)]\<rparr>
      else (activateTimerIfNotActive 100 CB_DRAWER_OPEN g)
          \<lparr>openTime := add_assign (openTime g) literal_0_1\<rparr>)"
  by (cases g, subst process_DRAWER_OPEN_state.simps)
    (simp add: Let_def closed_flat timer_defs)

lemma tick_attached: "ticker g = Some (ms, cb) \<Longrightarrow> tick pin g = invoke cb pin g"
  by (simp add: tick_def)

lemma tick_detached: "ticker g = None \<Longrightarrow> tick pin g = g"
  by (simp add: tick_def)

lemma level_not_LOW: "(pin \<noteq> LOW) = (pin = HIGH)"
  by (cases pin) simp_all

section \<open>Publications per handler\<close>

lemma stuck_publishes:
  "\<exists>ps. published (process_OPEN_FOR_TOO_LONG_state pin g) = published g @ ps \<and> length ps \<le> 2"
  by (simp add: stuck_flat activateTimerIfNotActive_def)

lemma open_publishes:
  "\<exists>ps. published (process_DRAWER_OPEN_state pin g) = published g @ ps \<and> length ps \<le> 3"
proof (cases "ge_int (add_assign (openTime g) literal_0_1) (TIMEOUT g)")
  case True
  let ?g = "g\<lparr>TIMEOUT := 3, openTime := 0, state := OPEN_FOR_TOO_LONG, ticker := None,
             published := published g @ [Reporter ''Pool table is open for too long'']\<rparr>"
  obtain ps where ps: "published (process_OPEN_FOR_TOO_LONG_state pin ?g) = published ?g @ ps"
    "length ps \<le> 2"
    using stuck_publishes [of pin ?g] by blast
  have "published (process_DRAWER_OPEN_state pin g)
      = published g @ (Reporter ''Pool table is open for too long'' # ps)"
    using True ps(1) by (simp add: open_flat)
  moreover have "length (Reporter ''Pool table is open for too long'' # ps) \<le> 3"
    using ps(2) by simp
  ultimately show ?thesis by blast
next
  case False
  then show ?thesis by (simp add: open_flat activateTimerIfNotActive_def)
qed

lemma closed_publishes:
  "\<exists>ps. published (process_DRAWER_CLOSED_state pin g) = published g @ ps \<and> length ps \<le> 3"
proof (cases pin)
  case LOW
  then show ?thesis by (simp add: closed_flat activateTimerIfNotActive_def)
next
  case HIGH
  then show ?thesis
    using open_publishes [of HIGH "g\<lparr>openTime := 0, state := DRAWER_OPEN, ticker := None\<rparr>"]
    by (simp add: closed_flat)
qed

lemma tick_publishes:
  "\<exists>ps. published (tick pin g) = published g @ ps \<and> length ps \<le> 3"
proof (cases "ticker g")
  case None
  then show ?thesis by (simp add: tick_detached)
next
  case (Some a)
  obtain ms cb where a: "a = (ms, cb)" by (cases a)
  have "\<exists>ps. published (invoke cb pin g) = published g @ ps \<and> length ps \<le> 3"
  proof (cases cb)
    case CB_DRAWER_CLOSED
    then show ?thesis using closed_publishes by simp
  next
    case CB_DRAWER_OPEN
    then show ?thesis using open_publishes by simp
  next
    case CB_OPEN_FOR_TOO_LONG
    obtain ps where "published (process_OPEN_FOR_TOO_LONG_state pin g) = published g @ ps"
      "length ps \<le> 2"
      using stuck_publishes by blast
    then have "published (process_OPEN_FOR_TOO_LONG_state pin g) = published g @ ps \<and> length ps \<le> 3"
      by simp
    then show ?thesis using CB_OPEN_FOR_TOO_LONG by auto
  qed
  then show ?thesis using Some a by (simp add: tick_attached)
qed

section \<open>Evaluating the timer\<close>

lemmas float_eval = add_assign_def to_float_def to_double_def round_to_format_def
  round_half_even_def binary_exponent_def pow2_def ge_int_def Let_def bit_count.simps

lemma literal_0_1_value: "literal_0_1 = 3602879701896397 / 36028797018963968"
  by (simp add: literal_0_1_def float_eval cong: let_weak_cong)

lemma first_increment: "add_assign 0 literal_0_1 = 13421773 / 134217728"
  by (simp add: literal_0_1_value float_eval cong: let_weak_cong)

lemma stays_below_numeral:
  "stays_below c (numeral k) x T =
     (\<not> ge_int (add_assign x c) T \<and> stays_below c (pred_numeral k) (add_assign x c) T)"
  by (simp add: numeral_eq_Suc)

lemma accumulate_numeral:
  "accumulate c (numeral k) x = accumulate c (pred_numeral k) (add_assign x c)"
  by (simp add: numeral_eq_Suc)

lemma accumulate_Suc_right: "accumulate c (Suc n) x = add_assign (accumulate c n x) c"
  by (induction n arbitrary: x) simp_all

lemma stays_below_add:
  "stays_below c (m + n) x T =
     (stays_below c m x T \<and> stays_below c n (accumulate c m x) T)"
  by (induction m arbitrary: x) auto

lemma below_3: "stays_below literal_0_1 30 0 3"
  by (simp add: stays_below_numeral literal_0_1_value float_eval cong: let_weak_cong)

lemma reach_3: "ge_int (accumulate literal_0_1 31 0) 3"
  by (simp add: accumulate_numeral literal_0_1_value float_eval cong: let_weak_cong)

lemma below_18: "stays_below literal_0_1 179 0 18"
  by (simp add: stays_below_numeral literal_0_1_value float_eval cong: let_weak_cong)

lemma reach_18: "ge_int (accumulate literal_0_1 180 0) 18"
  by (simp add: accumulate_numeral literal_0_1_value float_eval cong: let_weak_cong)

text \<open>
  The timer after 30 and after 180 additions from 0, as the sketch computes them:
  2.9999992847442627 and 18.000032424926758.
\<close>

lemma timer_after_30: "accumulate literal_0_1 30 0 = 12582909 / 4194304"
  by (simp add: accumulate_numeral literal_0_1_value float_eval cong: let_weak_cong)

lemma timer_after_180: "accumulate literal_0_1 180 0 = 9437201 / 524288"
  by (simp add: accumulate_numeral literal_0_1_value float_eval cong: let_weak_cong)

section \<open>Holding the pin for several ticks\<close>

lemma tick_OPEN_HIGH:
  assumes "ticker g = Some (ms, CB_DRAWER_OPEN)"
    and "\<not> ge_int (add_assign (openTime g) literal_0_1) (TIMEOUT g)"
  shows "tick HIGH g = g\<lparr>openTime := add_assign (openTime g) literal_0_1\<rparr>"
  using assms by (simp add: tick_attached open_flat activateTimerIfNotActive_def)

lemma tick_STUCK_HIGH:
  assumes "ticker g = Some (ms, CB_OPEN_FOR_TOO_LONG)"
  shows "tick HIGH g =
     (if ge_int (add_assign (openTime g) literal_0_1) (TIMEOUT g)
      then g\<lparr>openTime := 0,
             published := published g @ [Reporter ''Pool table keeps open for too long'']\<rparr>
      else g\<lparr>openTime := add_assign (openTime g) literal_0_1\<rparr>)"
  using assms by (simp add: tick_attached stuck_flat activateTimerIfNotActive_def)

lemma tick_CLOSED_LOW:
  assumes "ticker g = Some (ms, CB_DRAWER_CLOSED)"
  shows "tick LOW g = g\<lparr>openTime := 0\<rparr>"
  using assms by (simp add: tick_attached closed_flat activateTimerIfNotActive_def)

lemma tick_CLOSED_HIGH:
  assumes "ticker g = Some (ms, CB_DRAWER_CLOSED)"
    and "\<not> ge_int (add_assign 0 literal_0_1) (TIMEOUT g)"
  shows "tick HIGH g =
     g\<lparr>openTime := add_assign 0 literal_0_1, state := DRAWER_OPEN,
       ticker := Some (100, CB_DRAWER_OPEN)\<rparr>"
  using assms by (cases g) (simp add: tick_attached closed_flat open_flat activateTimerIfNotActive_def)

lemma tick_OPEN_LOW:
  assumes "ticker g = Some (ms, CB_DRAWER_OPEN)"
    and "\<not> ge_int (add_assign (openTime g) literal_0_1) (TIMEOUT g)"
  shows "tick LOW g =
     g\<lparr>openTime := 0, state := DRAWER_CLOSED, coinCount := coinCount g + 1,
       ticker := Some (100, CB_DRAWER_CLOSED),
       published := published g @ [CoinCounter (coinCount g + 1)]\<rparr>"
  using assms by (simp add: tick_attached open_flat)

lemma tick_OPEN_expired:
  assumes "ticker g = Some (ms, CB_DRAWER_OPEN)"
    and "ge_int (add_assign (openTime g) literal_0_1) (TIMEOUT g)"
  shows "tick pin g =
     process_OPEN_FOR_TOO_LONG_state pin
       (g\<lparr>TIMEOUT := 3, openTime := 0, state := OPEN_FOR_TOO_LONG, ticker := None,
          published := published g @ [Reporter ''Pool table is open for too long'']\<rparr>)"
  using assms by (simp add: tick_attached open_flat)

lemma tick_STUCK_LOW:
  assumes "ticker g = Some (ms, CB_OPEN_FOR_TOO_LONG)"
  shows "tick LOW g =
     g\<lparr>TIMEOUT := 18, openTime := 0, state := DRAWER_CLOSED, coinCount := coinCount g + 1,
       ticker := Some (100, CB_DRAWER_CLOSED),
       published := published g @ [CoinCounter (coinCount g + 1),
         Reporter ''Pool table drawer was finally closed'']\<rparr>"
  using assms by (simp add: tick_attached stuck_flat)

lemma open_hold:
  assumes "ticker g = Some (ms, CB_DRAWER_OPEN)"
    and "stays_below literal_0_1 n (openTime g) (TIMEOUT g)"
  shows "ticks (replicate n HIGH) g = g\<lparr>openTime := accumulate literal_0_1 n (openTime g)\<rparr>"
  using assms
proof (induction n arbitrary: g)
  case 0
  then show ?case by simp
next
  case (Suc n)
  let ?g = "g\<lparr>openTime := add_assign (openTime g) literal_0_1\<rparr>"
  from Suc.prems have step: "tick HIGH g = ?g"
    by (simp add: tick_OPEN_HIGH)
  have "ticks (replicate n HIGH) ?g = ?g\<lparr>openTime := accumulate literal_0_1 n (openTime ?g)\<rparr>"
    using Suc.prems by (intro Suc.IH) simp_all
  then show ?case using step by simp
qed

lemma stuck_hold:
  assumes "ticker g = Some (ms, CB_OPEN_FOR_TOO_LONG)"
    and "stays_below literal_0_1 n (openTime g) (TIMEOUT g)"
  shows "ticks (replicate n HIGH) g = g\<lparr>openTime := accumulate literal_0_1 n (openTime g)\<rparr>"
  using assms
proof (induction n arbitrary: g)
  case 0
  then show ?case by simp
next
  case (Suc n)
  let ?g = "g\<lparr>openTime := add_assign (openTime g) literal_0_1\<rparr>"
  from Suc.prems have step: "tick HIGH g = ?g"
    by (simp add: tick_STUCK_HIGH)
  have "ticks (replicate n HIGH) ?g = ?g\<lparr>openTime := accumulate literal_0_1 n (openTime ?g)\<rparr>"
    using Suc.prems by (intro Suc.IH) simp_all
  then show ?case using step by simp
qed

lemma closed_pull:
  assumes "ticker g = Some (ms, CB_DRAWER_CLOSED)"
    and "stays_below literal_0_1 (Suc n) 0 (TIMEOUT g)"
  shows "ticks (replicate (Suc n) HIGH) g =
     g\<lparr>openTime := accumulate literal_0_1 (Suc n) 0, state := DRAWER_OPEN,
       ticker := Some (100, CB_DRAWER_OPEN)\<rparr>"
proof -
  let ?g = "g\<lparr>openTime := add_assign 0 literal_0_1, state := DRAWER_OPEN,
       ticker := Some (100, CB_DRAWER_OPEN)\<rparr>"
  from assms have step: "tick HIGH g = ?g"
    by (simp add: tick_CLOSED_HIGH)
  have "ticks (replicate n HIGH) ?g = ?g\<lparr>openTime := accumulate literal_0_1 n (openTime ?g)\<rparr>"
    using assms by (intro open_hold [where ms = 100]) simp_all
  then show ?thesis using step by simp
qed

lemma closed_idle:
  assumes "ticker g = Some (ms, CB_DRAWER_CLOSED)"
  shows "ticks (replicate (Suc n) LOW) g = g\<lparr>openTime := 0\<rparr>"
  using assms
proof (induction n arbitrary: g)
  case 0
  then show ?case by (simp add: tick_CLOSED_LOW)
next
  case (Suc n)
  have "ticks (replicate (Suc n) LOW) (g\<lparr>openTime := 0\<rparr>) = g\<lparr>openTime := 0\<rparr>\<lparr>openTime := 0\<rparr>"
    using Suc.prems by (intro Suc.IH) simp
  then show ?case using Suc.prems by (simp add: tick_CLOSED_LOW)
qed

lemma ticks_append: "ticks (ps @ qs) g = ticks qs (ticks ps g)"
  by (induction ps arbitrary: g) simp_all

lemma ticks_snoc: "ticks (ps @ [p]) g = tick p (ticks ps g)"
  by (simp add: ticks_append)

lemma sint_incr:
  fixes w :: "32 word"
  assumes "sint w < 2147483647"
  shows "sint (w + 1) = sint w + 1"
proof -
  have lo: "- 2147483648 \<le> sint w" using sint_ge [of w] by simp
  have "sint (w + 1) = signed_take_bit 31 (sint w + 1)"
    by (simp add: sint_word_ariths)
  also have "\<dots> = sint w + 1"
    using lo assms by (intro signed_take_bit_int_eq_self) simp_all
  finally show ?thesis .
qed

section \<open>The count under a blocked light\<close>

lemma tick_HIGH_coinCount: "coinCount (tick HIGH g) = coinCount g"
proof (cases "ticker g")
  case None
  then show ?thesis by (simp add: tick_detached)
next
  case (Some a)
  obtain ms cb where a: "a = (ms, cb)" by (cases a)
  have stuck: "coinCount (process_OPEN_FOR_TOO_LONG_state HIGH h) = coinCount h" for h
    by (simp add: stuck_flat activateTimerIfNotActive_def)
  have "open": "coinCount (process_DRAWER_OPEN_state HIGH h) = coinCount h" for h
    by (simp add: open_flat [of HIGH h] stuck activateTimerIfNotActive_def)
  have closed: "coinCount (process_DRAWER_CLOSED_state HIGH h) = coinCount h" for h
    by (simp add: closed_flat "open")
  show ?thesis using Some a stuck "open" closed
    by (cases cb) (simp_all add: tick_attached)
qed

lemma ticks_coinCount_changes: "coinCount (ticks pins g) \<noteq> coinCount g \<Longrightarrow> LOW \<in> set pins"
proof (induction pins arbitrary: g)
  case Nil
  then show ?case by simp
next
  case (Cons p pins)
  show ?case
  proof (cases p)
    case LOW
    then show ?thesis by simp
  next
    case HIGH
    with Cons.prems have "coinCount (ticks pins (tick HIGH g)) \<noteq> coinCount (tick HIGH g)"
      by (simp add: tick_HIGH_coinCount)
    then have "LOW \<in> set pins" by (rule Cons.IH)
    then show ?thesis by simp
  qed
qed

section \<open>A run from start-up with the light blocked\<close>

lemma setup_LOW:
  "sketch_setup LOW =
     \<lparr>TIMEOUT = 18, openTime = 0, state = DRAWER_CLOSED, coinCount = 0,
      ticker = Some (100, CB_DRAWER_CLOSED), published = []\<rparr>"
  by (simp add: sketch_setup_def initial_globals_def closed_flat activateTimerIfNotActive_def)

lemma ticks_replicate_Suc:
  "ticks (replicate (Suc n) p) g = tick p (ticks (replicate n p) g)"
proof -
  have "replicate (Suc n) p = replicate n p @ [p]"
    by (simp add: replicate_append_same)
  then show ?thesis by (simp only: ticks_snoc)
qed

lemma ticks_replicate_last:
  "ticks (replicate (numeral k) p) g = tick p (ticks (replicate (pred_numeral k) p) g)"
  by (simp only: numeral_eq_Suc ticks_replicate_Suc)

lemma fresh_below_3: "\<not> ge_int (add_assign 0 literal_0_1) 3"
  by (simp add: literal_0_1_value float_eval cong: let_weak_cong)

lemma fresh_below_18: "\<not> ge_int (add_assign 0 literal_0_1) 18"
  by (simp add: literal_0_1_value float_eval cong: let_weak_cong)

lemma pulled_179:
  "ticks (replicate 179 HIGH) (sketch_setup LOW) =
     \<lparr>TIMEOUT = 18, openTime = accumulate literal_0_1 179 0, state = DRAWER_OPEN, coinCount = 0,
      ticker = Some (100, CB_DRAWER_OPEN), published = []\<rparr>"
proof -
  have n: "(179::nat) = Suc 178" by simp
  show ?thesis
    unfolding n using below_18
    by (subst closed_pull [where ms = 100]) (simp_all add: setup_LOW)
qed

lemma expires_at_180:
  "ge_int (add_assign (accumulate literal_0_1 179 0) literal_0_1) 18"
proof -
  have "(180::nat) = Suc 179" by simp
  then show ?thesis using reach_18 by (simp only: accumulate_Suc_right)
qed

lemma pulled_180:
  "ticks (replicate 180 HIGH) (sketch_setup LOW) =
     \<lparr>TIMEOUT = 3, openTime = add_assign 0 literal_0_1, state = OPEN_FOR_TOO_LONG, coinCount = 0,
      ticker = Some (100, CB_OPEN_FOR_TOO_LONG),
      published = [Reporter ''Pool table is open for too long'']\<rparr>"
proof -
  have "ticks (replicate 180 HIGH) (sketch_setup LOW)
      = tick HIGH (ticks (replicate 179 HIGH) (sketch_setup LOW))"
    by (simp add: ticks_replicate_last)
  also have "\<dots> = \<lparr>TIMEOUT = 3, openTime = add_assign 0 literal_0_1, state = OPEN_FOR_TOO_LONG,
      coinCount = 0, ticker = Some (100, CB_OPEN_FOR_TOO_LONG),
      published = [Reporter ''Pool table is open for too long'']\<rparr>"
    using expires_at_180
    by (simp add: pulled_179 tick_OPEN_expired [where ms = 100] stuck_flat
        activateTimerIfNotActive_def fresh_below_3)
  finally show ?thesis .
qed

lemma before_timeout_value:
  "before_timeout =
     \<lparr>TIMEOUT = 18, openTime = accumulate literal_0_1 179 0, state = DRAWER_OPEN, coinCount = 0,
      ticker = Some (100, CB_DRAWER_OPEN), published = []\<rparr>"
  by (simp only: before_timeout_def pulled_179)

lemma before_timeout_expires:
  "ge_int (add_assign (openTime before_timeout) literal_0_1) (TIMEOUT before_timeout)"
  using expires_at_180 by (simp add: before_timeout_value)

section \<open>The claims\<close>

subsection \<open>Publications per tick\<close>

text \<open>
  C2, as stated: one tick invokes at most two publishes. This fails on the run from start-up
  with the light blocked for 179 ticks and let through on the next one: nothing has been
  published before that tick, and the tick itself publishes three times (the timeout notice,
  the count, the closing notice).
\<close>

theorem three_publishes_in_one_tick:
  "published (ticks (replicate 179 HIGH) (sketch_setup LOW)) = [] \<and>
   published (tick LOW (ticks (replicate 179 HIGH) (sketch_setup LOW))) =
     [Reporter ''Pool table is open for too long'', CoinCounter 1,
      Reporter ''Pool table drawer was finally closed''] \<and>
   \<not> length (published (tick LOW (ticks (replicate 179 HIGH) (sketch_setup LOW))))
       \<le> length (published (ticks (replicate 179 HIGH) (sketch_setup LOW))) + 2"
  using expires_at_180
  by (simp add: pulled_179 tick_OPEN_expired [where ms = 100] stuck_flat)

text \<open>
  C2, amended: for every value of the globals (state, timer, threshold, count, ticker) and
  every pin reading, one tick appends at most three publications to the log and removes
  none.
\<close>

theorem tick_publishes_at_most_three:
  "\<exists>ps. published (tick pin g) = published g @ ps \<and> length ps \<le> 3"
  by (rule tick_publishes)

subsection \<open>Termination of the handler chain\<close>

lemma call_decreases_rank:
  "process_DRAWER_CLOSED_state_process_DRAWER_OPEN_state_process_OPEN_FOR_TOO_LONG_state_rel c' c
   \<Longrightarrow> chain_rank c' < chain_rank c"
  by (erule process_DRAWER_CLOSED_state_process_DRAWER_OPEN_state_process_OPEN_FOR_TOO_LONG_state_rel.cases)
    (auto simp: level_not_LOW)

lemma chain_rank_le_2: "chain_rank c \<le> 2"
  by (cases c rule: chain_rank.cases) simp_all

text \<open>
  C9: the handlers are total and one tick runs a finite chain of them. Whatever callback the
  ticker invokes, with whatever globals (state, timer, threshold, count) and pin reading, the
  call lies in the domain of the mutual recursion, that is, every chain of handler calls
  started there is finite; and no chain has a third nested call, so at most three handlers
  run in one tick. The handlers contain no operation that can fail. The pin reading is the
  same at every read of the chain.
\<close>

theorem handler_chain_terminates:
  "process_DRAWER_CLOSED_state_process_DRAWER_OPEN_state_process_OPEN_FOR_TOO_LONG_state_dom
     (call_of cb pin g) \<and>
   \<not> (process_DRAWER_CLOSED_state_process_DRAWER_OPEN_state_process_OPEN_FOR_TOO_LONG_state_rel
         c1 (call_of cb pin g) \<and>
       process_DRAWER_CLOSED_state_process_DRAWER_OPEN_state_process_OPEN_FOR_TOO_LONG_state_rel
         c2 c1 \<and>
       process_DRAWER_CLOSED_state_process_DRAWER_OPEN_state_process_OPEN_FOR_TOO_LONG_state_rel
         c3 c2)"
proof
  have "All process_DRAWER_CLOSED_state_process_DRAWER_OPEN_state_process_OPEN_FOR_TOO_LONG_state_dom"
    by (relation "measure chain_rank") auto
  then show "process_DRAWER_CLOSED_state_process_DRAWER_OPEN_state_process_OPEN_FOR_TOO_LONG_state_dom
     (call_of cb pin g)"
    by blast
next
  show "\<not> (process_DRAWER_CLOSED_state_process_DRAWER_OPEN_state_process_OPEN_FOR_TOO_LONG_state_rel
         c1 (call_of cb pin g) \<and>
       process_DRAWER_CLOSED_state_process_DRAWER_OPEN_state_process_OPEN_FOR_TOO_LONG_state_rel
         c2 c1 \<and>
       process_DRAWER_CLOSED_state_process_DRAWER_OPEN_state_process_OPEN_FOR_TOO_LONG_state_rel
         c3 c2)"
    using call_decreases_rank [of c1 "call_of cb pin g"] call_decreases_rank [of c2 c1]
      call_decreases_rank [of c3 c2] chain_rank_le_2 [of "call_of cb pin g"]
    by auto
qed

subsection \<open>Timeout promotion\<close>

text \<open>
  C3, as stated: the tick that promotes the open drawer leaves the timer at 0. This fails on
  the run from start-up: after 179 ticks with the light blocked the machine is in the open
  state and the next accumulation reaches the threshold; the next tick, with the light still
  blocked, promotes the machine, and the timer is not 0 after it.
\<close>

theorem promotion_leaves_timer_nonzero:
  "in_state DRAWER_OPEN before_timeout \<and>
   ge_int (add_assign (openTime before_timeout) literal_0_1) (TIMEOUT before_timeout) \<and>
   state (tick HIGH before_timeout) = OPEN_FOR_TOO_LONG \<and>
   openTime (tick HIGH before_timeout) \<noteq> 0"
proof -
  have att: "ticker before_timeout = Some (100, CB_DRAWER_OPEN)"
    by (simp add: before_timeout_value)
  note e = before_timeout_expires
  have "state (tick HIGH before_timeout) = OPEN_FOR_TOO_LONG"
    "openTime (tick HIGH before_timeout) = add_assign 0 literal_0_1"
    by (simp_all add: tick_OPEN_expired [OF att e] stuck_flat activateTimerIfNotActive_def
        fresh_below_3)
  then show ?thesis
    using e by (simp add: first_increment in_state_def before_timeout_value)
qed

text \<open>
  C3, amended: from the open state, on a tick that reads the light blocked and on which the
  timer, after its accumulation, reaches the threshold, the machine moves to the state
  open-for-too-long, publishes exactly one message, the timeout notice, and ends the tick
  with the timer at one accumulation from 0 (the \<^verbatim>\<open>float\<close> nearest to 0.1): the timer is
  reset and then the handler of the new state, run in the same tick, adds to it. The
  threshold becomes 3 and the count is unchanged. (The open state with the timer already at
  the threshold is never reached: the open handler promotes in the call where the test first
  succeeds.)
\<close>

theorem timeout_promotion:
  assumes "in_state DRAWER_OPEN g"
    and "ge_int (add_assign (openTime g) literal_0_1) (TIMEOUT g)"
  shows "state (tick HIGH g) = OPEN_FOR_TOO_LONG \<and>
         in_state OPEN_FOR_TOO_LONG (tick HIGH g) \<and>
         published (tick HIGH g) = published g @ [Reporter ''Pool table is open for too long''] \<and>
         openTime (tick HIGH g) = add_assign 0 literal_0_1 \<and>
         openTime (tick HIGH g) = 13421773 / 134217728 \<and>
         TIMEOUT (tick HIGH g) = 3 \<and>
         coinCount (tick HIGH g) = coinCount g"
proof -
  have att: "ticker g = Some (100, CB_DRAWER_OPEN)"
    using assms(1) by (simp add: in_state_def)
  have "tick HIGH g =
      g\<lparr>TIMEOUT := 3, openTime := add_assign 0 literal_0_1, state := OPEN_FOR_TOO_LONG,
        ticker := Some (100, CB_OPEN_FOR_TOO_LONG),
        published := published g @ [Reporter ''Pool table is open for too long'']\<rparr>"
    using att assms(2)
    by (cases g) (simp add: tick_OPEN_expired stuck_flat activateTimerIfNotActive_def fresh_below_3)
  then show ?thesis by (simp add: in_state_def first_increment)
qed

theorem timeout_promotion_witness:
  "in_state DRAWER_OPEN before_timeout \<and>
   ge_int (add_assign (openTime before_timeout) literal_0_1) (TIMEOUT before_timeout) \<and>
   state (tick HIGH before_timeout) = OPEN_FOR_TOO_LONG \<and>
   published (tick HIGH before_timeout) = [Reporter ''Pool table is open for too long''] \<and>
   openTime (tick HIGH before_timeout) = 13421773 / 134217728 \<and>
   TIMEOUT (tick HIGH before_timeout) = 3"
proof -
  have h: "in_state DRAWER_OPEN before_timeout"
    "ge_int (add_assign (openTime before_timeout) literal_0_1) (TIMEOUT before_timeout)"
    using before_timeout_expires by (simp_all add: in_state_def before_timeout_value)
  have "published before_timeout = []" by (simp add: before_timeout_value)
  then show ?thesis using h timeout_promotion [OF h] by simp
qed

subsection \<open>Recovery from the jam\<close>

text \<open>
  C6: from the state open-for-too-long, a tick that reads the light let through moves the
  machine to the closed state, adds exactly 1 to the count, publishes the new count and then
  the closing notice, in that order and nothing else, resets the timer to 0 and restores the
  first timeout, 18, as the threshold. The count is a 32-bit \<^verbatim>\<open>int\<close>: the addition is
  that of the machine, and it is the addition of the integers below the largest
  \<^verbatim>\<open>int\<close>.
\<close>

theorem recovery_from_stuck:
  assumes "in_state OPEN_FOR_TOO_LONG g"
  shows "in_state DRAWER_CLOSED (tick LOW g) \<and>
         coinCount (tick LOW g) = coinCount g + 1 \<and>
         (sint (coinCount g) < 2147483647 \<longrightarrow>
            sint (coinCount (tick LOW g)) = sint (coinCount g) + 1) \<and>
         published (tick LOW g) =
           published g @ [CoinCounter (coinCount g + 1),
             Reporter ''Pool table drawer was finally closed''] \<and>
         openTime (tick LOW g) = 0 \<and>
         TIMEOUT (tick LOW g) = 18"
proof -
  have att: "ticker g = Some (100, CB_OPEN_FOR_TOO_LONG)"
    using assms by (simp add: in_state_def)
  show ?thesis
    by (simp add: tick_STUCK_LOW [OF att] in_state_def sint_incr)
qed

theorem recovery_from_stuck_witness:
  "in_state OPEN_FOR_TOO_LONG stuck_just_notified \<and>
   sint (coinCount stuck_just_notified) < 2147483647 \<and>
   in_state DRAWER_CLOSED (tick LOW stuck_just_notified) \<and>
   sint (coinCount (tick LOW stuck_just_notified)) = 1 \<and>
   published (tick LOW stuck_just_notified) =
     [CoinCounter 1, Reporter ''Pool table drawer was finally closed''] \<and>
   TIMEOUT (tick LOW stuck_just_notified) = 18"
proof -
  have h: "in_state OPEN_FOR_TOO_LONG stuck_just_notified"
    by (simp add: in_state_def stuck_just_notified_def)
  have v: "coinCount stuck_just_notified = 0" "published stuck_just_notified = []"
    by (simp_all add: stuck_just_notified_def)
  show ?thesis using h v recovery_from_stuck [OF h] by simp
qed

subsection \<open>Timeout and closing on the same tick\<close>

text \<open>
  C10: in the open state the timeout test comes before the test of the pin. On a tick where
  the timer reaches the threshold and the pin reads the light let through, the open handler
  promotes the machine (threshold 3, timer 0, timeout notice published) and calls the handler
  of open-for-too-long, which in the same tick closes the drawer: the machine ends in the
  closed state with the count raised by exactly 1, and the tick has published three
  messages, the timeout notice, the count and the closing notice, in that order.
\<close>

theorem timeout_before_close:
  assumes "in_state DRAWER_OPEN g"
    and "ge_int (add_assign (openTime g) literal_0_1) (TIMEOUT g)"
  shows "tick LOW g =
           process_OPEN_FOR_TOO_LONG_state LOW
             (g\<lparr>TIMEOUT := 3, openTime := 0, state := OPEN_FOR_TOO_LONG, ticker := None,
                published := published g @ [Reporter ''Pool table is open for too long'']\<rparr>) \<and>
         in_state DRAWER_CLOSED (tick LOW g) \<and>
         coinCount (tick LOW g) = coinCount g + 1 \<and>
         published (tick LOW g) =
           published g @ [Reporter ''Pool table is open for too long'',
             CoinCounter (coinCount g + 1),
             Reporter ''Pool table drawer was finally closed''] \<and>
         openTime (tick LOW g) = 0 \<and>
         TIMEOUT (tick LOW g) = 18"
proof -
  have att: "ticker g = Some (100, CB_DRAWER_OPEN)"
    using assms(1) by (simp add: in_state_def)
  show ?thesis
    by (simp add: tick_OPEN_expired [OF att assms(2)] stuck_flat in_state_def)
qed

theorem timeout_before_close_witness:
  "in_state DRAWER_OPEN before_timeout \<and>
   ge_int (add_assign (openTime before_timeout) literal_0_1) (TIMEOUT before_timeout) \<and>
   in_state DRAWER_CLOSED (tick LOW before_timeout) \<and>
   coinCount (tick LOW before_timeout) = 1 \<and>
   published (tick LOW before_timeout) =
     [Reporter ''Pool table is open for too long'', CoinCounter 1,
      Reporter ''Pool table drawer was finally closed'']"
proof -
  have h: "in_state DRAWER_OPEN before_timeout"
    "ge_int (add_assign (openTime before_timeout) literal_0_1) (TIMEOUT before_timeout)"
    using before_timeout_expires by (simp_all add: in_state_def before_timeout_value)
  have v: "coinCount before_timeout = 0" "published before_timeout = []"
    by (simp_all add: before_timeout_value)
  show ?thesis using h v timeout_before_close [OF h, THEN conjunct2] by simp
qed

subsection \<open>No count while the light is blocked\<close>

text \<open>
  C7: starting in the open state, over any number of consecutive ticks that all read the
  light blocked the count keeps its value, also across the tick that promotes the machine to
  open-for-too-long; and over any sequence of ticks, the count can differ from its starting
  value only if some tick of the sequence read the light let through.
\<close>

theorem no_count_while_blocked:
  assumes "in_state DRAWER_OPEN g"
  shows "coinCount (ticks (replicate n HIGH) g) = coinCount g \<and>
         (coinCount (ticks pins g) \<noteq> coinCount g \<longrightarrow> LOW \<in> set pins)"
proof -
  have "LOW \<notin> set (replicate n HIGH)" by simp
  then have "coinCount (ticks (replicate n HIGH) g) = coinCount g"
    using ticks_coinCount_changes [of "replicate n HIGH" g] by blast
  then show ?thesis using ticks_coinCount_changes [of pins g] by blast
qed

theorem no_count_while_blocked_witness:
  "in_state DRAWER_OPEN before_timeout \<and>
   state (ticks (replicate 2 HIGH) before_timeout) = OPEN_FOR_TOO_LONG \<and>
   coinCount (ticks (replicate 2 HIGH) before_timeout) = coinCount before_timeout \<and>
   coinCount (ticks [LOW] before_timeout) \<noteq> coinCount before_timeout \<and>
   LOW \<in> set [LOW]"
proof -
  have h: "in_state DRAWER_OPEN before_timeout"
    by (simp add: in_state_def before_timeout_value)
  have att: "ticker before_timeout = Some (100, CB_DRAWER_OPEN)"
    by (simp add: before_timeout_value)
  have e: "ge_int (add_assign (openTime before_timeout) literal_0_1) (TIMEOUT before_timeout)"
    by (rule before_timeout_expires)
  have s1: "ticker (tick HIGH before_timeout) = Some (100, CB_OPEN_FOR_TOO_LONG)"
    "state (tick HIGH before_timeout) = OPEN_FOR_TOO_LONG"
    by (simp_all add: tick_OPEN_expired [OF att e] stuck_flat activateTimerIfNotActive_def)
  have s2: "state (ticks (replicate 2 HIGH) before_timeout) = OPEN_FOR_TOO_LONG"
    by (simp add: numeral_2_eq_2 tick_STUCK_HIGH [OF s1(1)] s1(2))
  have "coinCount (ticks [LOW] before_timeout) = coinCount before_timeout + 1"
    by (simp add: tick_OPEN_expired [OF att e] stuck_flat)
  then have c: "coinCount (ticks [LOW] before_timeout) \<noteq> coinCount before_timeout"
    by simp
  show ?thesis using h s2 c no_count_while_blocked [OF h, of 2 "[LOW]"] by simp
qed

subsection \<open>One increment per cycle\<close>

lemma ticks_replicate_add:
  "ticks (replicate (m + n) p) g = ticks (replicate n p) (ticks (replicate m p) g)"
  by (simp add: replicate_add ticks_append)

lemma closed_idle_fields:
  assumes "ticker g = Some (ms, CB_DRAWER_CLOSED)"
  shows "ticker (ticks (replicate k LOW) g) = ticker g \<and>
         state (ticks (replicate k LOW) g) = state g \<and>
         TIMEOUT (ticks (replicate k LOW) g) = TIMEOUT g \<and>
         coinCount (ticks (replicate k LOW) g) = coinCount g \<and>
         published (ticks (replicate k LOW) g) = published g"
proof (cases k)
  case 0
  then show ?thesis by simp
next
  case (Suc j)
  then show ?thesis using closed_idle [OF assms, of j] by simp
qed

text \<open>
  C5: take any run that starts in the closed state, stays there while the light is let
  through (\<open>k\<close> ticks), then reads the light blocked for \<open>n + 1\<close> ticks and let through on
  the tick after, where none of the \<open>n + 2\<close> values the timer takes from 0 reaches the
  threshold. The machine is in the open state before the last tick, with nothing published
  and the count unchanged, and in the closed state after it, with the count raised by exactly
  1 and exactly one publication, of the count. The publication carries the count after the
  increment: the increment comes first.
\<close>

theorem single_increment_per_cycle:
  assumes "in_state DRAWER_CLOSED g"
    and "stays_below literal_0_1 (Suc (Suc n)) 0 (TIMEOUT g)"
  shows "in_state DRAWER_OPEN (ticks (replicate k LOW @ replicate (Suc n) HIGH) g) \<and>
         published (ticks (replicate k LOW @ replicate (Suc n) HIGH) g) = published g \<and>
         coinCount (ticks (replicate k LOW @ replicate (Suc n) HIGH) g) = coinCount g \<and>
         in_state DRAWER_CLOSED (ticks (replicate k LOW @ replicate (Suc n) HIGH @ [LOW]) g) \<and>
         coinCount (ticks (replicate k LOW @ replicate (Suc n) HIGH @ [LOW]) g)
           = coinCount g + 1 \<and>
         (sint (coinCount g) < 2147483647 \<longrightarrow>
            sint (coinCount (ticks (replicate k LOW @ replicate (Suc n) HIGH @ [LOW]) g))
              = sint (coinCount g) + 1) \<and>
         published (ticks (replicate k LOW @ replicate (Suc n) HIGH @ [LOW]) g)
           = published g @ [CoinCounter (coinCount g + 1)]"
proof -
  let ?g0 = "ticks (replicate k LOW) g"
  let ?g1 = "ticks (replicate (Suc n) HIGH) ?g0"
  have att: "ticker g = Some (100, CB_DRAWER_CLOSED)"
    using assms(1) by (simp add: in_state_def)
  note idle = closed_idle_fields [OF att, of k]
  have att0: "ticker ?g0 = Some (100, CB_DRAWER_CLOSED)"
    using idle att by simp
  have "Suc (Suc n) = Suc n + 1" by simp
  then have below: "stays_below literal_0_1 (Suc n) 0 (TIMEOUT g)"
    and last: "\<not> ge_int (add_assign (accumulate literal_0_1 (Suc n) 0) literal_0_1) (TIMEOUT g)"
    using assms(2) stays_below_add [of literal_0_1 "Suc n" 1 0 "TIMEOUT g"] by simp_all
  have g1: "?g1 = ?g0\<lparr>openTime := accumulate literal_0_1 (Suc n) 0, state := DRAWER_OPEN,
       ticker := Some (100, CB_DRAWER_OPEN)\<rparr>"
    using below idle by (intro closed_pull [OF att0]) simp
  have att1: "ticker ?g1 = Some (100, CB_DRAWER_OPEN)"
    unfolding g1 by simp
  have last1: "\<not> ge_int (add_assign (openTime ?g1) literal_0_1) (TIMEOUT ?g1)"
    unfolding g1 using last idle by simp
  have g2: "tick LOW ?g1 =
      ?g1\<lparr>openTime := 0, state := DRAWER_CLOSED, coinCount := coinCount ?g1 + 1,
        ticker := Some (100, CB_DRAWER_CLOSED),
        published := published ?g1 @ [CoinCounter (coinCount ?g1 + 1)]\<rparr>"
    by (rule tick_OPEN_LOW [OF att1 last1])
  have f1: "state ?g1 = DRAWER_OPEN" "published ?g1 = published g" "coinCount ?g1 = coinCount g"
    unfolding g1 using idle by simp_all
  have run1: "ticks (replicate k LOW @ replicate (Suc n) HIGH) g = ?g1"
    by (simp only: ticks_append)
  have run2: "ticks (replicate k LOW @ replicate (Suc n) HIGH @ [LOW]) g = tick LOW ?g1"
    by (simp only: ticks_append ticks.simps)
  have f2: "state (tick LOW ?g1) = DRAWER_CLOSED"
    "ticker (tick LOW ?g1) = Some (100, CB_DRAWER_CLOSED)"
    "coinCount (tick LOW ?g1) = coinCount g + 1"
    "published (tick LOW ?g1) = published g @ [CoinCounter (coinCount g + 1)]"
    unfolding g2 using f1 by simp_all
  show ?thesis
    unfolding run1 run2 using f1 f2 att1 by (simp add: in_state_def sint_incr)
qed

theorem single_increment_per_cycle_witness:
  "in_state DRAWER_CLOSED (sketch_setup LOW) \<and>
   stays_below literal_0_1 (Suc (Suc 1)) 0 (TIMEOUT (sketch_setup LOW)) \<and>
   sint (coinCount (sketch_setup LOW)) < 2147483647 \<and>
   in_state DRAWER_OPEN (ticks (replicate 2 LOW @ replicate (Suc 1) HIGH) (sketch_setup LOW)) \<and>
   in_state DRAWER_CLOSED
     (ticks (replicate 2 LOW @ replicate (Suc 1) HIGH @ [LOW]) (sketch_setup LOW)) \<and>
   sint (coinCount (ticks (replicate 2 LOW @ replicate (Suc 1) HIGH @ [LOW]) (sketch_setup LOW)))
     = 1 \<and>
   published (ticks (replicate 2 LOW @ replicate (Suc 1) HIGH @ [LOW]) (sketch_setup LOW))
     = [CoinCounter 1]"
proof -
  have h1: "in_state DRAWER_CLOSED (sketch_setup LOW)"
    by (simp add: setup_LOW in_state_def)
  have "(179::nat) = Suc (Suc 1) + 176" by simp
  then have "stays_below literal_0_1 (Suc (Suc 1)) 0 18"
    using below_18 stays_below_add [of literal_0_1 "Suc (Suc 1)" 176 0 18] by simp
  then have h2: "stays_below literal_0_1 (Suc (Suc 1)) 0 (TIMEOUT (sketch_setup LOW))"
    by (simp add: setup_LOW)
  have v: "coinCount (sketch_setup LOW) = 0" "published (sketch_setup LOW) = []"
    by (simp_all add: setup_LOW)
  show ?thesis
    using h1 h2 v single_increment_per_cycle [OF h1 h2, of 2] by simp
qed

subsection \<open>The repeat notice\<close>

lemma accumulate_numeral_right:
  "accumulate c (numeral k) x = add_assign (accumulate c (pred_numeral k) x) c"
  by (simp only: numeral_eq_Suc accumulate_Suc_right)

lemma expires_at_31: "ge_int (add_assign (accumulate literal_0_1 30 0) literal_0_1) 3"
proof -
  have "(31::nat) = Suc 30" by simp
  then show ?thesis using reach_3 by (simp only: accumulate_Suc_right)
qed

lemma stuck_period:
  assumes "ticker g = Some (ms, CB_OPEN_FOR_TOO_LONG)" and "openTime g = 0" and "TIMEOUT g = 3"
  shows "ticks (replicate 30 HIGH) g = g\<lparr>openTime := accumulate literal_0_1 30 0\<rparr>"
    and "ticks (replicate 31 HIGH) g =
      g\<lparr>openTime := 0,
        published := published g @ [Reporter ''Pool table keeps open for too long'']\<rparr>"
proof -
  show a: "ticks (replicate 30 HIGH) g = g\<lparr>openTime := accumulate literal_0_1 30 0\<rparr>"
    using stuck_hold [OF assms(1), of 30] below_3 assms(2,3) by simp
  have "ticks (replicate 31 HIGH) g = tick HIGH (ticks (replicate 30 HIGH) g)"
    by (simp add: ticks_replicate_last)
  also have "\<dots> = g\<lparr>openTime := 0,
        published := published g @ [Reporter ''Pool table keeps open for too long'']\<rparr>"
    unfolding a using assms expires_at_31
    by (subst tick_STUCK_HIGH [where ms = ms]) simp_all
  finally show "ticks (replicate 31 HIGH) g =
      g\<lparr>openTime := 0,
        published := published g @ [Reporter ''Pool table keeps open for too long'']\<rparr>" .
qed

text \<open>
  C8, evaluated on the sketch: in the state open-for-too-long with the timer at 0 and the
  threshold at 3, thirty ticks that read the light blocked publish nothing, since thirty
  \<^verbatim>\<open>float\<close> additions of 0.1 stay below 3; the repeat notice comes with tick 31, which also
  returns the timer to 0, so the notices are 31 ticks apart. The state and the count do not
  change.
\<close>

theorem repeat_notice_every_31_ticks:
  "in_state OPEN_FOR_TOO_LONG stuck_just_notified \<and>
   openTime stuck_just_notified = 0 \<and> TIMEOUT stuck_just_notified = 3 \<and>
   published (ticks (replicate 30 HIGH) stuck_just_notified) = [] \<and>
   \<not> ge_int (openTime (ticks (replicate 30 HIGH) stuck_just_notified)) 3 \<and>
   ticks (replicate 31 HIGH) stuck_just_notified =
     stuck_just_notified\<lparr>published := [Reporter ''Pool table keeps open for too long'']\<rparr>"
proof -
  have att: "ticker stuck_just_notified = Some (100, CB_OPEN_FOR_TOO_LONG)"
    and v: "openTime stuck_just_notified = 0" "TIMEOUT stuck_just_notified = 3"
    by (simp_all add: stuck_just_notified_def)
  note p = stuck_period [OF att v]
  have "(30::nat) = 29 + 1" by simp
  then have "\<not> ge_int (add_assign (accumulate literal_0_1 29 0) literal_0_1) 3"
    using below_3 stays_below_add [of literal_0_1 29 1 0 3] by simp
  then have "\<not> ge_int (accumulate literal_0_1 30 0) 3"
    by (simp add: accumulate_numeral_right)
  then show ?thesis
    unfolding p by (simp add: stuck_just_notified_def in_state_def)
qed

subsection \<open>The timeouts in seconds\<close>

lemma pulled_209:
  "ticks (replicate 209 HIGH) (sketch_setup LOW) =
     \<lparr>TIMEOUT = 3, openTime = accumulate literal_0_1 30 0, state = OPEN_FOR_TOO_LONG,
      coinCount = 0, ticker = Some (100, CB_OPEN_FOR_TOO_LONG),
      published = [Reporter ''Pool table is open for too long'']\<rparr>"
proof -
  have below: "stays_below literal_0_1 29 (add_assign 0 literal_0_1) 3"
    using below_3 by (simp add: stays_below_numeral)
  have acc: "accumulate literal_0_1 30 0 = accumulate literal_0_1 29 (add_assign 0 literal_0_1)"
    by (simp add: accumulate_numeral)
  have "(209::nat) = 180 + 29" by simp
  then have "ticks (replicate 209 HIGH) (sketch_setup LOW)
      = ticks (replicate 29 HIGH) (ticks (replicate 180 HIGH) (sketch_setup LOW))"
    by (simp only: ticks_replicate_add)
  also have "\<dots> = \<lparr>TIMEOUT = 3, openTime = accumulate literal_0_1 29 (add_assign 0 literal_0_1),
      state = OPEN_FOR_TOO_LONG, coinCount = 0, ticker = Some (100, CB_OPEN_FOR_TOO_LONG),
      published = [Reporter ''Pool table is open for too long'']\<rparr>"
    unfolding pulled_180 using below
    by (subst stuck_hold [where ms = 100]) simp_all
  finally show ?thesis by (simp only: acc)
qed

lemma pulled_210:
  "ticks (replicate 210 HIGH) (sketch_setup LOW) =
     \<lparr>TIMEOUT = 3, openTime = 0, state = OPEN_FOR_TOO_LONG,
      coinCount = 0, ticker = Some (100, CB_OPEN_FOR_TOO_LONG),
      published = [Reporter ''Pool table is open for too long'',
        Reporter ''Pool table keeps open for too long'']\<rparr>"
proof -
  have "ticks (replicate 210 HIGH) (sketch_setup LOW)
      = tick HIGH (ticks (replicate 209 HIGH) (sketch_setup LOW))"
    by (simp add: ticks_replicate_last)
  then show ?thesis
    unfolding pulled_209 using expires_at_31
    by (simp add: tick_STUCK_HIGH [where ms = 100])
qed

text \<open>
  C4, evaluated on the sketch: started with the light let through and then held blocked, the
  machine publishes nothing during the first 179 ticks and the timeout notice on tick 180,
  that is after 18 seconds of 100 ms ticks; the first repeat notice comes on tick 210 and the
  second on tick 241, about 3 seconds apart. The thresholds in the code are 18 and 3, where
  its comments say 1800 and 300 seconds.
\<close>

theorem timeouts_are_18_and_3_seconds:
  "published (ticks (replicate 179 HIGH) (sketch_setup LOW)) = [] \<and>
   published (ticks (replicate 180 HIGH) (sketch_setup LOW)) =
     [Reporter ''Pool table is open for too long''] \<and>
   state (ticks (replicate 180 HIGH) (sketch_setup LOW)) = OPEN_FOR_TOO_LONG \<and>
   published (ticks (replicate 209 HIGH) (sketch_setup LOW)) =
     [Reporter ''Pool table is open for too long''] \<and>
   published (ticks (replicate 210 HIGH) (sketch_setup LOW)) =
     [Reporter ''Pool table is open for too long'',
      Reporter ''Pool table keeps open for too long''] \<and>
   published (ticks (replicate 240 HIGH) (sketch_setup LOW)) =
     [Reporter ''Pool table is open for too long'',
      Reporter ''Pool table keeps open for too long''] \<and>
   published (ticks (replicate 241 HIGH) (sketch_setup LOW)) =
     [Reporter ''Pool table is open for too long'',
      Reporter ''Pool table keeps open for too long'',
      Reporter ''Pool table keeps open for too long'']"
proof -
  let ?g = "ticks (replicate 210 HIGH) (sketch_setup LOW)"
  have att: "ticker ?g = Some (100, CB_OPEN_FOR_TOO_LONG)"
    and v: "openTime ?g = 0" "TIMEOUT ?g = 3"
    unfolding pulled_210 by simp_all
  note p = stuck_period [OF att v]
  have "(240::nat) = 210 + 30" "(241::nat) = 210 + 31" by simp_all
  then have "ticks (replicate 240 HIGH) (sketch_setup LOW) = ticks (replicate 30 HIGH) ?g"
    "ticks (replicate 241 HIGH) (sketch_setup LOW) = ticks (replicate 31 HIGH) ?g"
    by (simp_all only: ticks_replicate_add)
  then have "published (ticks (replicate 240 HIGH) (sketch_setup LOW)) = published ?g"
    "published (ticks (replicate 241 HIGH) (sketch_setup LOW))
       = published ?g @ [Reporter ''Pool table keeps open for too long'']"
    by (simp_all add: p)
  then show ?thesis
    by (simp add: pulled_179 pulled_180 pulled_209 pulled_210)
qed

subsection \<open>The scenario\<close>






end
